theory Spec2Isabelle
  imports Main
begin

section \<open>Shared vocabulary\<close>

text \<open>
  Python \<open>str\<close> and \<open>bytes\<close> values are both lists of characters. The exceptions the
  modelled code can raise are values of \<open>error\<close>; a function that may raise returns
  \<open>error + 'a\<close>, with \<open>Inl\<close> for the raise.
\<close>

type_synonym bytes = "char list"

datatype proto_reason = NeedsThreeArguments | UnknownVersion | UnknownMethod | ContentLengthNotNumber

datatype error = ProtocolError proto_reason | ValueError | TypeError | IntegrityError

subsection \<open>Text helpers of the Python library\<close>

text \<open>\<open>str.upper()\<close> on the ASCII letters; every other character is left as it is.\<close>

definition upper_char :: "char \<Rightarrow> char" where
  "upper_char c =
     (case map_of (zip ''abcdefghijklmnopqrstuvwxyz'' ''ABCDEFGHIJKLMNOPQRSTUVWXYZ'') c of
        Some u \<Rightarrow> u
      | None \<Rightarrow> c)"

definition lower_char :: "char \<Rightarrow> char" where
  "lower_char c =
     (case map_of (zip ''ABCDEFGHIJKLMNOPQRSTUVWXYZ'' ''abcdefghijklmnopqrstuvwxyz'') c of
        Some l \<Rightarrow> l
      | None \<Rightarrow> c)"

definition upper :: "string \<Rightarrow> string" where
  "upper s = map upper_char s"

definition lower :: "string \<Rightarrow> string" where
  "lower s = map lower_char s"

text \<open>\<open>s.split(sep)\<close> for a one-character separator: never an empty list.\<close>

fun split_char :: "char \<Rightarrow> string \<Rightarrow> string list" where
  "split_char sep [] = [[]]"
| "split_char sep (c # cs) =
     (if c = sep then [] # split_char sep cs
      else (case split_char sep cs of
              w # ws \<Rightarrow> (c # w) # ws
            | [] \<Rightarrow> [[c]]))"

text \<open>\<open>s.split(sep, maxsplit)\<close>: at most \<open>maxsplit\<close> cuts, the rest stays whole.\<close>

fun split_max :: "char \<Rightarrow> nat \<Rightarrow> string \<Rightarrow> string list" where
  "split_max sep 0 s = [s]"
| "split_max sep (Suc n) [] = [[]]"
| "split_max sep (Suc n) (c # cs) =
     (if c = sep then [] # split_max sep n cs
      else (case split_max sep (Suc n) cs of
              w # ws \<Rightarrow> (c # w) # ws
            | [] \<Rightarrow> [[c]]))"

text \<open>\<open>sep.join(parts)\<close>.\<close>

fun join :: "string \<Rightarrow> string list \<Rightarrow> string" where
  "join sep [] = []"
| "join sep [p] = p"
| "join sep (p # q # ps) = p @ sep @ join sep (q # ps)"

text \<open>\<open>needle in haystack\<close> on strings: a contiguous occurrence.\<close>

fun starts_with :: "string \<Rightarrow> string \<Rightarrow> bool" where
  "starts_with [] s = True"
| "starts_with (p # ps) [] = False"
| "starts_with (p # ps) (c # cs) = (p = c \<and> starts_with ps cs)"

fun str_in :: "string \<Rightarrow> string \<Rightarrow> bool" where
  "str_in needle [] = (needle = [])"
| "str_in needle (c # cs) = (starts_with needle (c # cs) \<or> str_in needle cs)"

text \<open>\<open>str(n)\<close> for a length, in decimal.\<close>

definition digit_char :: "nat \<Rightarrow> char" where
  "digit_char d = ''0123456789'' ! (d mod 10)"

function str_nat :: "nat \<Rightarrow> string" where
  "str_nat n = (if n < 10 then [digit_char n] else str_nat (n div 10) @ [digit_char (n mod 10)])"
  by pat_completeness auto
termination
  by (relation "measure id") auto

declare str_nat.simps [simp del]

definition str_int :: "int \<Rightarrow> string" where
  "str_int i = (if i < 0 then CHR ''-'' # str_nat (nat (- i)) else str_nat (nat i))"

text \<open>
  The built-in \<open>int(s)\<close> on ASCII text: surrounding whitespace is dropped, one sign is
  allowed, then decimal digits, where single underscores may stand between digits.
  \<open>None\<close> is the \<open>ValueError\<close>.
\<close>

definition is_space :: "char \<Rightarrow> bool" where
  "is_space c = (c \<in> set [CHR '' '', CHR 0x09, CHR 0x0A, CHR 0x0B, CHR 0x0C, CHR 0x0D,
                           CHR 0x1C, CHR 0x1D, CHR 0x1E, CHR 0x1F])"

definition strip :: "string \<Rightarrow> string" where
  "strip s = rev (dropWhile is_space (rev (dropWhile is_space s)))"

definition digit_val :: "char \<Rightarrow> nat option" where
  "digit_val c = map_of (zip ''0123456789'' [0, 1, 2, 3, 4, 5, 6, 7, 8, 9]) c"

text \<open>
  The digits after the sign, read left to right: \<open>acc\<close> is the value so far,
  \<open>prev\<close> says whether the character before was a digit (an underscore needs one on
  both sides).
\<close>

fun int_digits :: "nat \<Rightarrow> bool \<Rightarrow> string \<Rightarrow> nat option" where
  "int_digits acc prev [] = (if prev then Some acc else None)"
| "int_digits acc prev (c # cs) =
     (if c = CHR ''_'' then (if prev \<and> cs \<noteq> [] then int_digits acc False cs else None)
      else (case digit_val c of
              None \<Rightarrow> None
            | Some d \<Rightarrow> int_digits (10 * acc + d) True cs))"

definition int_of_str :: "string \<Rightarrow> int option" where
  "int_of_str s =
     (case strip s of
        [] \<Rightarrow> None
      | c # cs \<Rightarrow>
          if c = CHR ''-'' then map_option (\<lambda>n. - int n) (int_digits 0 False cs)
          else if c = CHR ''+'' then map_option int (int_digits 0 False cs)
          else map_option int (int_digits 0 False (c # cs)))"

text \<open>
  \<open>urllib.parse.unquote\<close> where the escapes decode to ASCII: \<open>%XY\<close> with two hex digits
  becomes the character with that code, anything else is kept.
\<close>

definition hex_val :: "char \<Rightarrow> nat option" where
  "hex_val c = map_of (zip ''0123456789abcdefABCDEF''
                 [0, 1, 2, 3, 4, 5, 6, 7, 8, 9, 10, 11, 12, 13, 14, 15, 10, 11, 12, 13, 14, 15]) c"

fun pct_unquote :: "string \<Rightarrow> string" where
  "pct_unquote (p # a # b # cs) =
     (if p = CHR ''%'' then
        (case (hex_val a, hex_val b) of
           (Some x, Some y) \<Rightarrow> char_of (16 * x + y) # pct_unquote cs
         | _ \<Rightarrow> p # pct_unquote (a # b # cs))
      else p # pct_unquote (a # b # cs))"
| "pct_unquote cs = cs"

section \<open>storage/users\_table.py\<close>

text \<open>
  A row of the \<open>users\<close> table, with the columns \<open>UsersTable.columns\<close> declares:
  \<open>user_id TEXT PRIMARY KEY\<close>, \<open>email TEXT NOT NULL UNIQUE\<close>, \<open>password TEXT NOT NULL\<close>.
\<close>

record user_row =
  user_id :: string
  email :: string
  password :: string

type_synonym users = "user_row list"

text \<open>
  The base class \<open>Table\<close> (storage/table.py) is not among the sources. Its two methods
  used here are modelled by the SQL their call sites spell out: \<open>select("*", cond, args)\<close>
  returns the rows that satisfy the condition, \<open>insert(...)\<close> appends the row unless the
  primary key or the unique column of the schema above is already taken.
\<close>

definition select :: "users \<Rightarrow> (user_row \<Rightarrow> bool) \<Rightarrow> user_row list" where
  "select t cond = filter cond t"

definition insert_row :: "users \<Rightarrow> user_row \<Rightarrow> error + users" where
  "insert_row t r =
     (if list_ex (\<lambda>q. user_id q = user_id r \<or> email q = email r) t then Inl IntegrityError
      else Inr (t @ [r]))"

definition UsersTable_email_exists :: "users \<Rightarrow> string \<Rightarrow> bool" where
  "UsersTable_email_exists t e = (let users = select t (\<lambda>q. email q = e) in length users > 0)"

definition UsersTable_id_exists :: "users \<Rightarrow> string \<Rightarrow> bool" where
  "UsersTable_id_exists t u = (let users = select t (\<lambda>q. user_id q = u) in length users > 0)"

definition UsersTable_exists :: "users \<Rightarrow> string \<Rightarrow> string \<Rightarrow> bool" where
  "UsersTable_exists t u e = (UsersTable_id_exists t u \<or> UsersTable_email_exists t e)"

text \<open>\<open>register\<close> returns its boolean together with the table it leaves behind.\<close>

definition UsersTable_register :: "users \<Rightarrow> string \<Rightarrow> string \<Rightarrow> string \<Rightarrow> error + (bool \<times> users)" where
  "UsersTable_register t u e p =
     (if UsersTable_exists t u e then Inr (False, t)
      else (case insert_row t \<lparr>user_id = u, email = e, password = p\<rparr> of
              Inl err \<Rightarrow> Inl err
            | Inr t' \<Rightarrow> Inr (True, t')))"

section \<open>The header map\<close>

text \<open>
  Modelled from the spec: the class \<open>CaseInsensitiveDict\<close> (proj\_types) and the type of
  \<open>WebResponse.headers\<close> are not among the sources. The spec (4.3) asks for a mapping whose
  lookups, insertions and overwrites ignore the case of the key, which keeps the spelling
  last written, and whose merge lets the right-hand entries win on a key collision. It is
  an association list in insertion order; two keys collide when their lower-case forms
  are equal.
\<close>

type_synonym header_map = "(string \<times> string) list"

definition same_key :: "string \<Rightarrow> string \<Rightarrow> bool" where
  "same_key a b = (lower a = lower b)"

fun ci_lookup :: "header_map \<Rightarrow> string \<Rightarrow> string option" where
  "ci_lookup [] k = None"
| "ci_lookup ((k', v) # m) k = (if same_key k' k then Some v else ci_lookup m k)"

definition ci_contains :: "header_map \<Rightarrow> string \<Rightarrow> bool" where
  "ci_contains m k = (ci_lookup m k \<noteq> None)"

fun ci_set :: "header_map \<Rightarrow> string \<Rightarrow> string \<Rightarrow> header_map" where
  "ci_set [] k v = [(k, v)]"
| "ci_set ((k', v') # m) k v = (if same_key k' k then (k, v) # m else (k', v') # ci_set m k v)"

text \<open>\<open>left | right\<close>: the entries of \<open>right\<close> are written into \<open>left\<close> one by one.\<close>

definition ci_merge :: "header_map \<Rightarrow> header_map \<Rightarrow> header_map" where
  "ci_merge left right = fold (\<lambda>(k, v) m. ci_set m k v) right left"

text \<open>No two entries of a header map collide.\<close>

definition ci_distinct :: "header_map \<Rightarrow> bool" where
  "ci_distinct m = distinct (map (\<lambda>(k, v). lower k) m)"

section \<open>The response object\<close>

text \<open>
  \<open>WebResponse\<close> (web/response.py) is not among the sources; the fields are the ones
  web/http.py and web/api\_handler.py read and write. A body is absent, a \<open>bytes\<close>
  value, or a \<open>DataSender\<close>; the sender type \<open>'s\<close> is left open.
\<close>

datatype 's resp_body = RBytes bytes | Sender 's

record 's response =
  code :: int
  msg :: string
  headers :: header_map
  body :: "'s resp_body option"
  recv_headers :: header_map

section \<open>web/api\_handler.py\<close>

text \<open>
  What the handlers use of their surroundings, none of it among the sources:
  \<open>get_session\<close> is the result of \<open>WebHandler.get_session()\<close>; \<open>check_file_id\<close>,
  \<open>can_download\<close> and \<open>check_folder_id\<close> are the queries of \<open>DataDB().files()\<close>;
  \<open>json_body\<close> is \<open>WebResponse.json_body\<close>; \<open>py_len\<close> is \<open>len\<close> on a value of the
  JSON body, \<open>None\<close> where the value has no length (\<open>TypeError\<close>). The values of the
  JSON body have the open type \<open>'v\<close>; a key that is missing or holds \<open>null\<close> is \<open>None\<close>.
\<close>

record ('v, 'u, 's) handler_env =
  get_session :: "'u option"
  check_file_id :: "'v \<Rightarrow> bool"
  can_download :: "'u \<Rightarrow> 'v \<Rightarrow> bool"
  check_folder_id :: "'v \<Rightarrow> bool"
  json_body :: "(string \<times> string) list \<Rightarrow> 's response \<Rightarrow> 's response"
  py_len :: "'v \<Rightarrow> nat option"

text \<open>The two mutating calls on the file database, in the order they were made.\<close>

datatype 'v db_op = Move 'v 'v | DeleteFile 'v

definition response_invalid_data ::
  "('v, 'u, 's) handler_env \<Rightarrow> 's response \<Rightarrow> string \<Rightarrow> 's response" where
  "response_invalid_data env response message =
     json_body env [(''message'', message)] (response\<lparr>code := 500, msg := ''Invalid Form Data''\<rparr>)"

definition check_login ::
  "('v, 'u, 's) handler_env \<Rightarrow> 's response \<Rightarrow> 'u option \<times> 's response" where
  "check_login env response =
     (case get_session env of
        None \<Rightarrow> (None, response_invalid_data env response ''You need to login.'')
      | Some session \<Rightarrow> (Some session, response))"

text \<open>
  \<open>_move\<close> and \<open>_delete\<close> return the response as they leave it and the mutating
  calls they made. The branch on \<open>can_download\<close> has no \<open>return\<close> in the source, so the
  model goes on with the response it has set.
\<close>

definition APIHandler_move ::
  "('v, 'u, 's) handler_env \<Rightarrow> (string \<rightharpoonup> 'v) \<Rightarrow> 's response \<Rightarrow> error + ('s response \<times> 'v db_op list)" where
  "APIHandler_move env jbody response =
     (case check_login env response of
        (None, r0) \<Rightarrow> Inr (r0, [])
      | (Some session, r0) \<Rightarrow>
          (let file_id = jbody ''file_id''; new_path = jbody ''folder_id'' in
           case file_id of
             None \<Rightarrow> Inr (response_invalid_data env r0 ''File does not exist.'', [])
           | Some fid \<Rightarrow>
               if \<not> check_file_id env fid
               then Inr (response_invalid_data env r0 ''File does not exist.'', [])
               else
                 (let r1 = (if \<not> can_download env session fid
                            then response_invalid_data env r0 ''You can't do that!''
                            else r0)
                  in case new_path of
                       None \<Rightarrow> Inr (response_invalid_data env r1 ''The target path does not exist.'', [])
                     | Some np \<Rightarrow>
                         if check_folder_id env np then Inr (r1, [Move fid np])
                         else (case py_len env np of
                                 None \<Rightarrow> Inl TypeError
                               | Some l \<Rightarrow>
                                   if l = 0 then Inr (r1, [Move fid np])
                                   else Inr (response_invalid_data env r1
                                               ''The target path does not exist.'', [])))))"

definition APIHandler_delete ::
  "('v, 'u, 's) handler_env \<Rightarrow> (string \<rightharpoonup> 'v) \<Rightarrow> 's response \<Rightarrow> error + ('s response \<times> 'v db_op list)" where
  "APIHandler_delete env jbody response =
     (case check_login env response of
        (None, r0) \<Rightarrow> Inr (r0, [])
      | (Some session, r0) \<Rightarrow>
          (let file_id = jbody ''file_id'' in
           case file_id of
             None \<Rightarrow> Inr (response_invalid_data env r0 ''File does not exist.'', [])
           | Some fid \<Rightarrow>
               if \<not> check_file_id env fid
               then Inr (response_invalid_data env r0 ''File does not exist.'', [])
               else
                 (let r1 = (if \<not> can_download env session fid
                            then response_invalid_data env r0 ''You can't do that!''
                            else r0)
                  in Inr (r1, [DeleteFile fid]))))"

text \<open>
  A small concrete surrounding for examples: one user \<open>''bob''\<close> logged in, one file
  \<open>''f1''\<close> that exists and that the user may not touch, one folder \<open>''d1''\<close>;
  \<open>json_body\<close> stores the message as the body.
\<close>

definition ex_env :: "(string, string, unit) handler_env" where
  "ex_env =
     \<lparr>get_session = Some ''bob'',
      check_file_id = (\<lambda>f. f = ''f1''),
      can_download = (\<lambda>u f. False),
      check_folder_id = (\<lambda>d. d = ''d1''),
      json_body = (\<lambda>kv r. r\<lparr>body := Some (RBytes (concat (map snd kv)))\<rparr>),
      py_len = (\<lambda>v. Some (length v))\<rparr>"

definition ex_response :: "unit response" where
  "ex_response = \<lparr>code = 200, msg = ''OK'', headers = [], body = None, recv_headers = []\<rparr>"

section \<open>web/http.py: the request\<close>

text \<open>
  The module \<open>constants\<close> is not among the sources; the three values web/http.py reads
  from it are parameters.
\<close>

record constants =
  HTTP_VERSION :: string
  BUFFERED_CHUNK_SIZE :: int
  SERVER_NAME :: string

text \<open>
  The receiving side of a blocking stream socket: the bursts of bytes that will still
  arrive, in order; after the last one the peer has closed. \<open>recv(n)\<close> waits for the
  next burst and returns at most \<open>n\<close> bytes of it; it returns \<open>b""\<close> once the peer
  has closed, and raises \<open>ValueError\<close> on a negative size.
\<close>

type_synonym socket = "bytes list"

definition recv :: "socket \<Rightarrow> int \<Rightarrow> error + (bytes \<times> socket)" where
  "recv sock n =
     (if n < 0 then Inl ValueError
      else (case dropWhile (\<lambda>burst. burst = []) sock of
              [] \<Rightarrow> Inr ([], [])
            | burst # rest \<Rightarrow>
                Inr (take (nat n) burst,
                     if drop (nat n) burst = [] then rest else drop (nat n) burst # rest)))"

text \<open>
  The body of a request: \<open>bytes\<close>, or a \<open>DataReceiver(self._socket, content_length)\<close>,
  which holds the declared length and has read nothing yet.
\<close>

datatype req_body = Bytes bytes | DataReceiver int

record request =
  req_method :: "string option"
  req_path :: "string option"
  req_headers :: header_map
  req_body :: "req_body option"

text \<open>
  Modelled from the spec: the enumeration \<open>WebMethod\<close> (proj\_types/webmethod.py) is not
  among the sources. The spec (4.1): the method token must be one of a fixed enumerated
  set of verbs; an unrecognized verb is a protocol error. The set of verbs is the
  parameter \<open>verbs\<close>; a member is named by its token.
\<close>

definition WebMethod :: "string list \<Rightarrow> string \<Rightarrow> error + string" where
  "WebMethod verbs token =
     (if token \<in> set verbs then Inr token else Inl (ProtocolError UnknownMethod))"

text \<open>
  \<open>_read_status\<close>, on the line \<open>self._read_line()\<close> returned. \<open>unquote\<close> stands for
  \<open>urllib.parse.unquote\<close>. A raise leaves no request behind.
\<close>

definition HttpRequest_read_status ::
  "constants \<Rightarrow> string list \<Rightarrow> (string \<Rightarrow> string) \<Rightarrow> string \<Rightarrow> request \<Rightarrow> error + request" where
  "HttpRequest_read_status c verbs unquote line req =
     (let status = split_max CHR '' '' 2 line in
      if length status \<noteq> 3 then Inl (ProtocolError NeedsThreeArguments)
      else if upper (status ! 2) \<noteq> HTTP_VERSION c then Inl (ProtocolError UnknownVersion)
      else (case WebMethod verbs (status ! 0) of
              Inl e \<Rightarrow> Inl e
            | Inr m \<Rightarrow>
                (let path = split_char CHR ''?'' (status ! 1)
                 in Inr (req\<lparr>req_method := Some m, req_path := Some (unquote (hd path))\<rparr>))))"

text \<open>
  \<open>_read_body\<close>, on the request with its headers read and the socket behind it.
  \<open>py_int\<close> stands for the built-in \<open>int\<close> on a string, \<open>None\<close> for its
  \<open>ValueError\<close>.
\<close>

definition HttpRequest_read_body ::
  "constants \<Rightarrow> (string \<Rightarrow> int option) \<Rightarrow> request \<Rightarrow> socket \<Rightarrow> error + (request \<times> socket)" where
  "HttpRequest_read_body c py_int req sock =
     (case ci_lookup (req_headers req) ''Content-Length'' of
        None \<Rightarrow> Inr (req, sock)
      | Some v \<Rightarrow>
          (case py_int v of
             None \<Rightarrow> Inl (ProtocolError ContentLengthNotNumber)
           | Some content_length \<Rightarrow>
               if content_length \<ge> BUFFERED_CHUNK_SIZE c
               then Inr (req\<lparr>req_body := Some (DataReceiver content_length)\<rparr>, sock)
               else (case recv sock content_length of
                       Inl e \<Rightarrow> Inl e
                     | Inr (data, sock') \<Rightarrow> Inr (req\<lparr>req_body := Some (Bytes data)\<rparr>, sock'))))"

text \<open>Values for examples: the wire's version string and a threshold of 1024 bytes.\<close>

definition ex_constants :: constants where
  "ex_constants = \<lparr>HTTP_VERSION = ''HTTP/1.1'', BUFFERED_CHUNK_SIZE = 1024, SERVER_NAME = ''srv''\<rparr>"

definition ex_request :: "header_map \<Rightarrow> request" where
  "ex_request hs = \<lparr>req_method = None, req_path = None, req_headers = hs, req_body = None\<rparr>"

section \<open>web/http.py: the response\<close>

text \<open>
  What the response side uses of its surroundings, none of it among the sources.
  An \<open>Encoding\<close> (web/encoding.py) has a wire name, a whole-buffer \<open>compress\<close> and a
  \<open>chunked_compression()\<close> that may be \<open>None\<close>.
\<close>

record 'c encoding =
  name :: string
  compress :: "bytes \<Rightarrow> bytes"
  chunked_compression :: "'c option"

text \<open>
  \<open>supported_encodings\<close> is \<open>Encoding.supported_encodings()\<close>; \<open>sender_len\<close> is
  \<open>len\<close> on a \<open>DataSender\<close> (\<open>None\<close>: the class has no \<open>__len__\<close>, a \<open>TypeError\<close>);
  \<open>sender_compress\<close> is \<open>DataSender.compress\<close>; \<open>gmt_now\<close> is
  \<open>time.strftime("%a, %d %b %Y %H:%M:%S GMT", time.gmtime())\<close>.
\<close>

record ('s, 'c) world =
  supported_encodings :: "'c encoding list"
  sender_len :: "'s \<Rightarrow> nat option"
  sender_compress :: "'s \<Rightarrow> 'c \<Rightarrow> 's"
  gmt_now :: string

text \<open>Python's truth value of \<open>self.body\<close> in \<open>not self.body\<close>.\<close>

definition body_truthy :: "('s, 'c) world \<Rightarrow> 's resp_body option \<Rightarrow> bool" where
  "body_truthy w b =
     (case b of
        None \<Rightarrow> False
      | Some (RBytes d) \<Rightarrow> d \<noteq> []
      | Some (Sender s) \<Rightarrow> (case sender_len w s of None \<Rightarrow> True | Some n \<Rightarrow> n \<noteq> 0))"

text \<open>\<open>len(self.body)\<close> on a body that is not \<open>None\<close>.\<close>

definition body_len :: "('s, 'c) world \<Rightarrow> 's resp_body \<Rightarrow> error + nat" where
  "body_len w b =
     (case b of
        RBytes d \<Rightarrow> Inr (length d)
      | Sender s \<Rightarrow> (case sender_len w s of None \<Rightarrow> Inl TypeError | Some n \<Rightarrow> Inr n))"

text \<open>\<open>_compress_sender\<close>: the boolean it returns and the body it leaves.\<close>

definition HttpResponse_compress_sender ::
  "('s, 'c) world \<Rightarrow> 'c encoding \<Rightarrow> 's resp_body \<Rightarrow> bool \<times> 's resp_body" where
  "HttpResponse_compress_sender w enc b =
     (case b of
        RBytes d \<Rightarrow> (False, b)
      | Sender s \<Rightarrow>
          (case chunked_compression enc of
             None \<Rightarrow> (False, b)
           | Some compressor \<Rightarrow> (True, Sender (sender_compress w s compressor))))"

text \<open>
  One round of the loop of \<open>_compress_body\<close>, on the body and \<open>used_encodings\<close>.
  The source skips a codec when \<open>len(tested_encoding) > len(self.body)\<close>.
\<close>

definition compress_step ::
  "('s, 'c) world \<Rightarrow> string \<Rightarrow> 'c encoding \<Rightarrow> 's resp_body \<times> string list \<Rightarrow> 's resp_body \<times> string list" where
  "compress_step w accept_encoding enc st =
     (case st of (b, used_encodings) \<Rightarrow>
        if \<not> str_in (name enc) accept_encoding then (b, used_encodings)
        else (case b of
                Sender s \<Rightarrow>
                  (case HttpResponse_compress_sender w enc b of
                     (True, b') \<Rightarrow> (b', used_encodings @ [name enc])
                   | (False, b') \<Rightarrow> (b', used_encodings))
              | RBytes d \<Rightarrow>
                  (let tested_encoding = compress enc d in
                   if length tested_encoding > length d then (b, used_encodings)
                   else (RBytes tested_encoding, used_encodings @ [name enc]))))"

definition HttpResponse_compress_body :: "('s, 'c) world \<Rightarrow> 's response \<Rightarrow> 's response" where
  "HttpResponse_compress_body w resp =
     (if \<not> ci_contains (recv_headers resp) ''Accept-Encoding'' \<or> \<not> body_truthy w (body resp)
      then resp
      else (case (ci_lookup (recv_headers resp) ''Accept-Encoding'', body resp) of
              (Some accept_encoding, Some b) \<Rightarrow>
                (case fold (compress_step w accept_encoding) (supported_encodings w) (b, []) of
                   (b', used_encodings) \<Rightarrow>
                     resp\<lparr>body := Some b',
                          headers := ci_set (headers resp) ''Content-Encoding''
                                       (join '', '' used_encodings)\<rparr>)
            | _ \<Rightarrow> resp))"

text \<open>
  What goes to the socket, call by call: \<open>sendall(data)\<close>, a \<open>DataSender\<close> driven by
  \<open>send_to\<close>, and the final \<open>close()\<close>.
\<close>

datatype 's wire = Data bytes | SendTo 's | Close

definition send_line :: "string \<Rightarrow> 's wire" where
  "send_line line = Data (line @ [CHR 0x0D, CHR 0x0A])"

definition send_status :: "constants \<Rightarrow> 's response \<Rightarrow> 's wire list" where
  "send_status c resp = [send_line (HTTP_VERSION c @ '' '' @ str_int (code resp) @ '' '' @ msg resp)]"

definition default_headers :: "constants \<Rightarrow> ('s, 'c) world \<Rightarrow> header_map" where
  "default_headers c w = [(''Date'', gmt_now w), (''Server'', SERVER_NAME c)]"

text \<open>The header entries \<open>_send_headers\<close> iterates over, and the lines it sends.\<close>

definition merged_headers :: "constants \<Rightarrow> ('s, 'c) world \<Rightarrow> 's response \<Rightarrow> header_map" where
  "merged_headers c w resp = ci_merge (default_headers c w) (headers resp)"

definition send_headers :: "constants \<Rightarrow> ('s, 'c) world \<Rightarrow> 's response \<Rightarrow> 's wire list" where
  "send_headers c w resp =
     map (\<lambda>(key, val). send_line (key @ '': '' @ val)) (merged_headers c w resp) @ [send_line []]"

definition send_body :: "'s response \<Rightarrow> 's wire list" where
  "send_body resp =
     (case body resp of
        None \<Rightarrow> []
      | Some (Sender s) \<Rightarrow> [SendTo s]
      | Some (RBytes d) \<Rightarrow> [Data d])"

text \<open>
  \<open>send\<close>: the response as it stands when the status line goes out, and everything
  sent. The first step is the source's \<open>if self.body is not None\<close> block.
\<close>

definition set_content_length :: "('s, 'c) world \<Rightarrow> 's response \<Rightarrow> error + 's response" where
  "set_content_length w resp =
     (case body resp of
        None \<Rightarrow> Inr resp
      | Some b0 \<Rightarrow>
          (let r = HttpResponse_compress_body w resp in
           case body r of
             None \<Rightarrow> Inl TypeError
           | Some b \<Rightarrow>
               (case body_len w b of
                  Inl e \<Rightarrow> Inl e
                | Inr n \<Rightarrow> Inr (r\<lparr>headers := ci_set (headers r) ''Content-Length'' (str_nat n)\<rparr>))))"

definition HttpResponse_send ::
  "constants \<Rightarrow> ('s, 'c) world \<Rightarrow> 's response \<Rightarrow> error + ('s response \<times> 's wire list)" where
  "HttpResponse_send c w resp =
     (case set_content_length w resp of
        Inl e \<Rightarrow> Inl e
      | Inr r \<Rightarrow> Inr (r, send_status c r @ send_headers c w r @ send_body r @ [Close]))"

text \<open>
  Surroundings for examples. The codec \<open>''flip''\<close> reverses the buffer, so its output is
  as long as its input; \<open>''pad''\<close> adds a byte; \<open>''cut''\<close> drops the first byte. A
  sender is its length.
\<close>

definition ex_world :: "(nat, unit) world" where
  "ex_world =
     \<lparr>supported_encodings =
        [\<lparr>name = ''flip'', compress = rev, chunked_compression = None\<rparr>,
         \<lparr>name = ''pad'', compress = (\<lambda>d. CHR ''#'' # d), chunked_compression = None\<rparr>,
         \<lparr>name = ''cut'', compress = tl, chunked_compression = None\<rparr>],
      sender_len = (\<lambda>s. Some s),
      sender_compress = (\<lambda>s c. s),
      gmt_now = ''Tue, 03 Nov 2026 20:15:00 GMT''\<rparr>"

definition ex_reply :: "header_map \<Rightarrow> nat resp_body option \<Rightarrow> nat response" where
  "ex_reply accepted b =
     \<lparr>code = 200, msg = ''OK'', headers = [], body = b, recv_headers = accepted\<rparr>"

section \<open>Claims\<close>

subsection \<open>UsersTable.register\<close>

lemma exists_iff:
  "UsersTable_exists t u e = list_ex (\<lambda>q. user_id q = u \<or> email q = e) t"
  by (induction t)
     (auto simp: UsersTable_exists_def UsersTable_id_exists_def UsersTable_email_exists_def
        select_def)

text \<open>
  C10. For every userid, email and password hash, \<open>register\<close> returns False and leaves the
  table as it was when a row with that userid or that email exists; otherwise it returns
  True and the table is the old one with exactly one new row, holding those three values.
\<close>

theorem register_result:
  "UsersTable_register t u e p =
     (if list_ex (\<lambda>q. user_id q = u \<or> email q = e) t then Inr (False, t)
      else Inr (True, t @ [\<lparr>user_id = u, email = e, password = p\<rparr>]))"
  by (simp add: UsersTable_register_def insert_row_def exists_iff)

subsection \<open>APIHandler.\_move and APIHandler.\_delete\<close>

text \<open>
  C4 (as amended). For every request of a logged-in user where the file exists and
  \<open>can_download\<close> fails, the handler sets the invalid-data response and does not
  return: \<open>_delete\<close> still deletes the file; \<open>_move\<close> still moves it whenever the
  target folder passes its own check (the folder exists or its id is empty), and makes
  no mutating call when the target is missing or fails that check.
\<close>

theorem denied_still_mutates:
  assumes "get_session env = Some u"
    and "jbody ''file_id'' = Some fid"
    and "check_file_id env fid"
    and "\<not> can_download env u fid"
  shows "APIHandler_delete env jbody response =
           Inr (response_invalid_data env response ''You can't do that!'', [DeleteFile fid])
       \<and> (jbody ''folder_id'' = Some np \<and> (check_folder_id env np \<or> py_len env np = Some 0) \<longrightarrow>
            APIHandler_move env jbody response =
              Inr (response_invalid_data env response ''You can't do that!'', [Move fid np]))
       \<and> (jbody ''folder_id'' = None \<or>
            (\<exists>d l. jbody ''folder_id'' = Some d \<and> \<not> check_folder_id env d \<and> py_len env d = Some (Suc l)) \<longrightarrow>
            APIHandler_move env jbody response =
              Inr (response_invalid_data env
                     (response_invalid_data env response ''You can't do that!'')
                     ''The target path does not exist.'', []))"
  using assms
  by (auto simp: APIHandler_delete_def APIHandler_move_def check_login_def Let_def)

theorem denied_still_mutates_witness:
  "get_session ex_env = Some ''bob'' \<and> check_file_id ex_env ''f1'' \<and> \<not> can_download ex_env ''bob'' ''f1''
   \<and> APIHandler_delete ex_env [''file_id'' \<mapsto> ''f1'', ''folder_id'' \<mapsto> ''d1''] ex_response =
        Inr (response_invalid_data ex_env ex_response ''You can't do that!'', [DeleteFile ''f1''])
   \<and> APIHandler_move ex_env [''file_id'' \<mapsto> ''f1'', ''folder_id'' \<mapsto> ''d1''] ex_response =
        Inr (response_invalid_data ex_env ex_response ''You can't do that!'', [Move ''f1'' ''d1''])
   \<and> code (response_invalid_data ex_env ex_response ''You can't do that!'') = 500"
  using denied_still_mutates [where env = ex_env and u = "''bob''" and fid = "''f1''" and np = "''d1''"
           and jbody = "[''file_id'' \<mapsto> ''f1'', ''folder_id'' \<mapsto> ''d1'']" and response = ex_response]
  by (simp add: ex_env_def response_invalid_data_def ex_response_def)

text \<open>
  C4 as stated fails for \<open>_move\<close>: with no \<open>folder_id\<close> in the body the handler
  returns at the folder check, and no move is made.
\<close>

theorem move_denied_counterexample:
  "get_session ex_env = Some ''bob'' \<and> check_file_id ex_env ''f1'' \<and> \<not> can_download ex_env ''bob'' ''f1''
   \<and> APIHandler_move ex_env [''file_id'' \<mapsto> ''f1''] ex_response =
        Inr (response_invalid_data ex_env
               (response_invalid_data ex_env ex_response ''You can't do that!'')
               ''The target path does not exist.'', [])"
  by (simp add: APIHandler_move_def check_login_def ex_env_def)

subsection \<open>HttpRequest.\_read\_status\<close>

lemma split_char_nonempty: "split_char sep s \<noteq> []"
  by (induction s) (auto split: list.splits)

lemma split_max_nonempty: "split_max sep n s \<noteq> []"
  by (induction sep n s rule: split_max.induct) (auto split: list.splits)

lemma split_char_no_sep: "sep \<notin> set s \<Longrightarrow> split_char sep s = [s]"
  by (induction s) auto

lemma split_char_first: "sep \<notin> set m \<Longrightarrow> split_char sep (m @ sep # rest) = m # split_char sep rest"
  by (induction m) auto

lemma split_max_first:
  "sep \<notin> set m \<Longrightarrow> split_max sep (Suc n) (m @ sep # rest) = m # split_max sep n rest"
  by (induction m) auto

lemma hd_split_char: "hd (split_char sep s) = takeWhile (\<lambda>ch. ch \<noteq> sep) s"
  by (induction s) (auto split: list.splits simp: split_char_nonempty)

lemma length_split_max:
  "length (split_max sep n s) = min (Suc n) (length (split_char sep s))"
proof (induction sep n s rule: split_max.induct)
  case (1 sep s)
  show ?case using split_char_nonempty [of sep s] by (cases "split_char sep s") auto
next
  case (2 sep n)
  show ?case by simp
next
  case (3 sep n c cs)
  show ?case
  proof (cases "c = sep")
    case True
    with 3 show ?thesis by simp
  next
    case False
    obtain w ws where a: "split_max sep (Suc n) cs = w # ws"
      using split_max_nonempty [of sep "Suc n" cs] by (cases "split_max sep (Suc n) cs") auto
    obtain u us where b: "split_char sep cs = u # us"
      using split_char_nonempty [of sep cs] by (cases "split_char sep cs") auto
    from False 3 a b show ?thesis by simp
  qed
qed

lemma status_tokens:
  assumes "CHR '' '' \<notin> set m" and "CHR '' '' \<notin> set t"
  shows "split_max CHR '' '' 2 (m @ '' '' @ t @ '' '' @ v) = [m, t, v]"
proof -
  have "split_max CHR '' '' (Suc (Suc 0)) (m @ CHR '' '' # (t @ CHR '' '' # v)) = [m, t, v]"
    using assms by (simp add: split_max_first)
  then show ?thesis by (simp add: numeral_2_eq_2)
qed

text \<open>
  C8. For every status line of exactly three space-separated tokens whose method is a
  supported verb and whose version, upper-cased, is the supported version,
  \<open>_read_status\<close> yields the request with the method token as its method and, as its
  path, the request-target cut at the first \<open>?\<close> and unquoted.
\<close>

theorem read_status_ok:
  assumes "line = m @ '' '' @ t @ '' '' @ v"
    and "CHR '' '' \<notin> set m"
    and "CHR '' '' \<notin> set t"
    and "m \<in> set verbs"
    and "upper v = HTTP_VERSION c"
  shows "HttpRequest_read_status c verbs unquote line req =
           Inr (req\<lparr>req_method := Some m,
                    req_path := Some (unquote (takeWhile (\<lambda>ch. ch \<noteq> CHR ''?'') t))\<rparr>)"
proof -
  have "split_max CHR '' '' 2 line = [m, t, v]"
    using assms(1-3) status_tokens [of m t v] by simp
  then show ?thesis
    using assms(4,5) by (simp add: HttpRequest_read_status_def WebMethod_def hd_split_char)
qed

text \<open>
  The example of the spec: \<open>GET /a/v1/user?x=1 HTTP/1.1\<close> gives method \<open>GET\<close> and
  path \<open>/a/v1/user\<close>.
\<close>

theorem read_status_ok_witness:
  "''GET /a/v1/user?x=1 HTTP/1.1'' = ''GET'' @ '' '' @ ''/a/v1/user?x=1'' @ '' '' @ ''HTTP/1.1''
   \<and> CHR '' '' \<notin> set ''GET'' \<and> CHR '' '' \<notin> set ''/a/v1/user?x=1''
   \<and> ''GET'' \<in> set [''GET'', ''POST''] \<and> upper ''HTTP/1.1'' = HTTP_VERSION ex_constants
   \<and> HttpRequest_read_status ex_constants [''GET'', ''POST''] pct_unquote
        ''GET /a/v1/user?x=1 HTTP/1.1'' (ex_request []) =
      Inr \<lparr>req_method = Some ''GET'', req_path = Some ''/a/v1/user'', req_headers = [],
           req_body = None\<rparr>"
  using read_status_ok [where line = "''GET /a/v1/user?x=1 HTTP/1.1''" and m = "''GET''"
      and t = "''/a/v1/user?x=1''" and v = "''HTTP/1.1''" and verbs = "[''GET'', ''POST'']"
      and c = ex_constants and unquote = pct_unquote and req = "ex_request []"]
  by (simp add: upper_def upper_char_def ex_constants_def ex_request_def)

text \<open>
  C6. For every status line with fewer than three space-separated tokens, or with a
  version token that is not the supported version when upper-cased, or with a method
  token outside the set of verbs, \<open>_read_status\<close> raises a protocol error; the raise
  carries no request.
\<close>

theorem read_status_rejects:
  assumes "length (split_char CHR '' '' line) < 3
         \<or> (\<exists>m t v. line = m @ '' '' @ t @ '' '' @ v \<and> CHR '' '' \<notin> set m \<and> CHR '' '' \<notin> set t
               \<and> (upper v \<noteq> HTTP_VERSION c \<or> m \<notin> set verbs))"
  shows "\<exists>reason. HttpRequest_read_status c verbs unquote line req = Inl (ProtocolError reason)"
proof -
  consider (few) "length (split_char CHR '' '' line) < 3"
    | (bad) m t v where "line = m @ '' '' @ t @ '' '' @ v" and "CHR '' '' \<notin> set m"
        and "CHR '' '' \<notin> set t" and "upper v \<noteq> HTTP_VERSION c \<or> m \<notin> set verbs"
    using assms by blast
  then show ?thesis
  proof cases
    case few
    then have "length (split_max CHR '' '' 2 line) \<noteq> 3"
      by (simp add: length_split_max)
    then show ?thesis by (simp add: HttpRequest_read_status_def)
  next
    case bad
    have toks: "split_max CHR '' '' 2 line = [m, t, v]"
      using bad(1-3) status_tokens [of m t v] by simp
    show ?thesis
    proof (cases "upper v = HTTP_VERSION c")
      case True
      with bad(4) have "m \<notin> set verbs" by simp
      with True toks show ?thesis
        by (simp add: HttpRequest_read_status_def WebMethod_def)
    next
      case False
      with toks show ?thesis
        by (simp add: HttpRequest_read_status_def)
    qed
  qed
qed

text \<open>
  One line for each of the three ways: two tokens, a foreign version, a foreign verb.
\<close>

theorem read_status_rejects_witness:
  "length (split_char CHR '' '' ''GET /a'') < 3
   \<and> (\<exists>reason. HttpRequest_read_status ex_constants [''GET'', ''POST''] pct_unquote ''GET /a''
          (ex_request []) = Inl (ProtocolError reason))
   \<and> upper ''http/2'' \<noteq> HTTP_VERSION ex_constants
   \<and> (\<exists>reason. HttpRequest_read_status ex_constants [''GET'', ''POST''] pct_unquote
          (''GET'' @ '' '' @ ''/a'' @ '' '' @ ''http/2'') (ex_request []) = Inl (ProtocolError reason))
   \<and> ''BREW'' \<notin> set [''GET'', ''POST'']
   \<and> (\<exists>reason. HttpRequest_read_status ex_constants [''GET'', ''POST''] pct_unquote
          (''BREW'' @ '' '' @ ''/a'' @ '' '' @ ''HTTP/1.1'') (ex_request []) = Inl (ProtocolError reason))"
proof -
  have few: "length (split_char CHR '' '' ''GET /a'') < 3"
    by simp
  have version: "upper ''http/2'' \<noteq> HTTP_VERSION ex_constants"
    by (simp add: upper_def upper_char_def ex_constants_def)
  have verb: "''BREW'' \<notin> set [''GET'', ''POST'']"
    by simp
  have h2: "\<exists>m t v. ''GET'' @ '' '' @ ''/a'' @ '' '' @ ''http/2'' = m @ '' '' @ t @ '' '' @ v
      \<and> CHR '' '' \<notin> set m \<and> CHR '' '' \<notin> set t
      \<and> (upper v \<noteq> HTTP_VERSION ex_constants \<or> m \<notin> set [''GET'', ''POST''])"
    using version
    by (intro exI [of _ "''GET''"] exI [of _ "''/a''"] exI [of _ "''http/2''"]) simp
  have h3: "\<exists>m t v. ''BREW'' @ '' '' @ ''/a'' @ '' '' @ ''HTTP/1.1'' = m @ '' '' @ t @ '' '' @ v
      \<and> CHR '' '' \<notin> set m \<and> CHR '' '' \<notin> set t
      \<and> (upper v \<noteq> HTTP_VERSION ex_constants \<or> m \<notin> set [''GET'', ''POST''])"
    by (intro exI [of _ "''BREW''"] exI [of _ "''/a''"] exI [of _ "''HTTP/1.1''"]) simp
  show ?thesis
    using read_status_rejects [OF disjI1, OF few]
      read_status_rejects [OF disjI2, OF h2]
      read_status_rejects [OF disjI2, OF h3]
      few version verb
    by blast
qed

subsection \<open>HttpRequest.\_read\_body\<close>

lemmas read_body_eval =
  HttpRequest_read_body_def ex_constants_def ex_request_def same_key_def lower_def lower_char_def
  int_of_str_def strip_def is_space_def digit_val_def recv_def

text \<open>
  C1 does not hold of the code. Whenever the declared length is below the threshold and
  the first burst of bytes to arrive is shorter than declared, the single
  \<open>recv(content_length)\<close> returns just that burst, and \<open>_read_body\<close> returns normally
  with a body shorter than the declared length, whether or not the peer has closed.
\<close>

theorem read_body_short_read:
  assumes "ci_lookup (req_headers req) ''Content-Length'' = Some v"
    and "py_int v = Some n"
    and "n < BUFFERED_CHUNK_SIZE c"
    and "burst \<noteq> []"
    and "int (length burst) < n"
  shows "HttpRequest_read_body c py_int req (burst # rest) =
           Inr (req\<lparr>req_body := Some (Bytes burst)\<rparr>, rest)"
proof -
  from assms(5) have "length burst \<le> nat n" and "\<not> n < 0"
    by simp_all
  with assms(4) have "recv (burst # rest) n = Inr (burst, rest)"
    by (simp add: recv_def)
  with assms(1-3) show ?thesis
    by (simp add: HttpRequest_read_body_def)
qed

text \<open>
  \<open>Content-Length: 5\<close> and a peer that sends \<open>abc\<close> and closes, or sends \<open>abc\<close> and
  later \<open>de\<close>: the body is \<open>abc\<close> either way.
\<close>

theorem read_body_short_read_witness:
  "ci_lookup (req_headers (ex_request [(''Content-Length'', ''5'')])) ''Content-Length'' = Some ''5''
   \<and> int_of_str ''5'' = Some 5
   \<and> 5 < BUFFERED_CHUNK_SIZE ex_constants
   \<and> ''abc'' \<noteq> []
   \<and> int (length ''abc'') < 5
   \<and> HttpRequest_read_body ex_constants int_of_str
        (ex_request [(''Content-Length'', ''5'')]) [''abc''] =
      Inr (ex_request [(''Content-Length'', ''5'')]\<lparr>req_body := Some (Bytes ''abc'')\<rparr>, [])
   \<and> HttpRequest_read_body ex_constants int_of_str
        (ex_request [(''Content-Length'', ''5'')]) [''abc'', ''de''] =
      Inr (ex_request [(''Content-Length'', ''5'')]\<lparr>req_body := Some (Bytes ''abc'')\<rparr>, [''de''])"
proof -
  have h: "ci_lookup (req_headers (ex_request [(''Content-Length'', ''5'')])) ''Content-Length'' = Some ''5''"
    by (simp add: ex_request_def same_key_def)
  have p: "int_of_str ''5'' = Some 5"
    by (simp add: int_of_str_def strip_def is_space_def digit_val_def)
  have t: "5 < BUFFERED_CHUNK_SIZE ex_constants"
    by (simp add: ex_constants_def)
  have b: "''abc'' \<noteq> []" and l: "int (length ''abc'') < 5"
    by simp_all
  note run = read_body_short_read [where py_int = int_of_str and c = ex_constants, OF h p t b l]
  from run [of "[]"] run [of "[''de'']"] h p t b l show ?thesis
    by (intro conjI)
qed

text \<open>
  C5 (as amended). For every request \<open>_read_body\<close> returns for, starting from no body:
  the body is present if and only if a \<open>Content-Length\<close> header is present; it is a
  \<open>DataReceiver\<close> of the declared length if and only if that length is at least the
  buffering threshold; it is an in-memory buffer if and only if the declared length is
  below the threshold.
\<close>

theorem read_body_invariant:
  assumes "HttpRequest_read_body c py_int req sock = Inr (req', sock')"
    and "req_body req = None"
  shows "(req_body req' \<noteq> None) = ci_contains (req_headers req) ''Content-Length''
       \<and> (\<forall>n. (req_body req' = Some (DataReceiver n)) =
                (\<exists>v. ci_lookup (req_headers req) ''Content-Length'' = Some v \<and> py_int v = Some n
                      \<and> BUFFERED_CHUNK_SIZE c \<le> n))
       \<and> ((\<exists>d. req_body req' = Some (Bytes d)) =
             (\<exists>v n. ci_lookup (req_headers req) ''Content-Length'' = Some v \<and> py_int v = Some n
                    \<and> n < BUFFERED_CHUNK_SIZE c))"
proof (cases "ci_lookup (req_headers req) ''Content-Length''")
  case None
  with assms show ?thesis
    by (auto simp: HttpRequest_read_body_def ci_contains_def)
next
  case (Some v)
  show ?thesis
  proof (cases "py_int v")
    case None
    with Some assms(1) show ?thesis by (simp add: HttpRequest_read_body_def)
  next
    case (Some n)
    note n = this
    show ?thesis
    proof (cases "BUFFERED_CHUNK_SIZE c \<le> n")
      case True
      with \<open>ci_lookup (req_headers req) ''Content-Length'' = Some v\<close> n assms show ?thesis
        by (auto simp: HttpRequest_read_body_def ci_contains_def)
    next
      case False
      with \<open>ci_lookup (req_headers req) ''Content-Length'' = Some v\<close> n assms show ?thesis
        by (auto simp: HttpRequest_read_body_def ci_contains_def split: sum.splits)
    qed
  qed
qed

text \<open>
  A request with \<open>Content-Length: 5\<close> and five bytes on the socket.
\<close>

theorem read_body_invariant_witness:
  "HttpRequest_read_body ex_constants int_of_str
     (ex_request [(''Content-Length'', ''5'')]) [''hello''] =
     Inr (ex_request [(''Content-Length'', ''5'')]\<lparr>req_body := Some (Bytes ''hello'')\<rparr>, [])
   \<and> req_body (ex_request [(''Content-Length'', ''5'')]) = None
   \<and> ci_contains (req_headers (ex_request [(''Content-Length'', ''5'')])) ''Content-Length''
   \<and> (\<exists>v n. ci_lookup (req_headers (ex_request [(''Content-Length'', ''5'')])) ''Content-Length'' = Some v
         \<and> int_of_str v = Some n \<and> n < BUFFERED_CHUNK_SIZE ex_constants)"
proof -
  have run: "HttpRequest_read_body ex_constants int_of_str
     (ex_request [(''Content-Length'', ''5'')]) [''hello''] =
     Inr (ex_request [(''Content-Length'', ''5'')]\<lparr>req_body := Some (Bytes ''hello'')\<rparr>, [])"
    by (simp add: read_body_eval)
  have fresh: "req_body (ex_request [(''Content-Length'', ''5'')]) = None"
    by (simp add: ex_request_def)
  from read_body_invariant [OF run fresh] run fresh show ?thesis
    by (simp add: ex_request_def)
qed

text \<open>
  C5 as stated fails: with \<open>Content-Length: 0\<close> the body is present, the empty buffer.
\<close>

theorem read_body_zero_length_counterexample:
  "ci_lookup [(''Content-Length'', ''0'')] ''Content-Length'' = Some ''0''
   \<and> int_of_str ''0'' = Some 0
   \<and> HttpRequest_read_body ex_constants int_of_str
        (ex_request [(''Content-Length'', ''0'')]) [] =
      Inr (ex_request [(''Content-Length'', ''0'')]\<lparr>req_body := Some (Bytes [])\<rparr>, [])"
  by (simp add: read_body_eval)

text \<open>
  C7 (as amended). For every request carrying a \<open>Content-Length\<close> header whose value
  does not parse as an integer, \<open>_read_body\<close> raises the protocol error.
\<close>

theorem read_body_not_number:
  assumes "ci_lookup (req_headers req) ''Content-Length'' = Some v"
    and "py_int v = None"
  shows "HttpRequest_read_body c py_int req sock = Inl (ProtocolError ContentLengthNotNumber)"
  using assms by (simp add: HttpRequest_read_body_def)

text \<open>
  The header \<open>content-length: 12a\<close>.
\<close>

theorem read_body_not_number_witness:
  "ci_lookup (req_headers (ex_request [(''content-length'', ''12a'')])) ''Content-Length'' = Some ''12a''
   \<and> int_of_str ''12a'' = None
   \<and> HttpRequest_read_body ex_constants int_of_str
        (ex_request [(''content-length'', ''12a'')]) [''hello''] =
      Inl (ProtocolError ContentLengthNotNumber)"
proof -
  have h: "ci_lookup (req_headers (ex_request [(''content-length'', ''12a'')])) ''Content-Length'' = Some ''12a''"
    by (simp add: ex_request_def same_key_def lower_def lower_char_def)
  have p: "int_of_str ''12a'' = None"
    by (simp add: int_of_str_def strip_def is_space_def digit_val_def)
  from read_body_not_number [where py_int = int_of_str and c = ex_constants
      and sock = "[''hello'']", OF h p] h p
  show ?thesis by simp
qed

text \<open>
  C7 as stated fails: \<open>-5\<close> is not a non-negative integer, yet it parses, no protocol
  error is raised, and the \<open>ValueError\<close> of \<open>recv\<close> on a negative size comes out.
\<close>

theorem read_body_negative_counterexample:
  "ci_lookup [(''Content-Length'', ''-5'')] ''Content-Length'' = Some ''-5''
   \<and> int_of_str ''-5'' = Some (- 5)
   \<and> HttpRequest_read_body ex_constants int_of_str
        (ex_request [(''Content-Length'', ''-5'')]) [''hello''] = Inl ValueError"
  by (simp add: read_body_eval)

subsection \<open>The header map\<close>

lemma same_key_refl: "same_key k k"
  by (simp add: same_key_def)

lemma lookup_ci_set:
  "ci_lookup (ci_set m k v) q = (if same_key k q then Some v else ci_lookup m q)"
  by (induction m) (auto simp: same_key_def)

lemma keys_ci_set:
  "map (\<lambda>(k, v). lower k) (ci_set m k v) =
     (if lower k \<in> set (map (\<lambda>(k, v). lower k) m) then map (\<lambda>(k, v). lower k) m
      else map (\<lambda>(k, v). lower k) m @ [lower k])"
  by (induction m) (auto simp: same_key_def)

lemma ci_distinct_ci_set: "ci_distinct m \<Longrightarrow> ci_distinct (ci_set m k v)"
  by (simp add: ci_distinct_def keys_ci_set)

lemma lookup_none_iff: "(ci_lookup m q = None) = (lower q \<notin> set (map (\<lambda>(k, v). lower k) m))"
proof (induction m)
  case Nil
  show ?case by simp
next
  case (Cons kv m)
  obtain k v where kv: "kv = (k, v)" by (cases kv)
  show ?case
  proof (cases "lower k = lower q")
    case True
    with kv show ?thesis by (simp add: same_key_def)
  next
    case False
    then have "lower q \<noteq> lower k" by (rule not_sym)
    with False kv Cons.IH show ?thesis by (simp add: same_key_def)
  qed
qed

lemma in_ci_set_same: "(k, v) \<in> set (ci_set m k v)"
  by (induction m) auto

lemma in_ci_set_other: "(k', v') \<in> set m \<Longrightarrow> \<not> same_key k' k \<Longrightarrow> (k', v') \<in> set (ci_set m k v)"
  by (induction m) auto

lemma ci_distinct_fold:
  "ci_distinct l \<Longrightarrow> ci_distinct (fold (\<lambda>(k, v) m. ci_set m k v) r l)"
  by (induction r arbitrary: l) (auto simp: ci_distinct_ci_set)

lemma ci_distinct_merge: "ci_distinct l \<Longrightarrow> ci_distinct (ci_merge l r)"
  by (simp add: ci_merge_def ci_distinct_fold)

lemma lookup_fold:
  "ci_distinct r \<Longrightarrow>
   ci_lookup (fold (\<lambda>(k, v) m. ci_set m k v) r l) q =
     (case ci_lookup r q of Some v \<Rightarrow> Some v | None \<Rightarrow> ci_lookup l q)"
proof (induction r arbitrary: l)
  case Nil
  show ?case by simp
next
  case (Cons kv r)
  obtain k v where kv: "kv = (k, v)" by (cases kv)
  from Cons.prems kv have dr: "ci_distinct r" and fresh: "lower k \<notin> set (map (\<lambda>(k, v). lower k) r)"
    by (simp_all add: ci_distinct_def)
  show ?case
  proof (cases "same_key k q")
    case True
    then have "lower q \<notin> set (map (\<lambda>(k, v). lower k) r)"
      using fresh by (simp add: same_key_def)
    then have "ci_lookup r q = None" by (simp add: lookup_none_iff)
    with True kv Cons.IH [OF dr] show ?thesis by (simp add: lookup_ci_set)
  next
    case False
    with kv Cons.IH [OF dr] show ?thesis by (simp add: lookup_ci_set split: option.splits)
  qed
qed

lemma lookup_merge:
  "ci_distinct r \<Longrightarrow>
   ci_lookup (ci_merge l r) q = (case ci_lookup r q of Some v \<Rightarrow> Some v | None \<Rightarrow> ci_lookup l q)"
  by (simp add: ci_merge_def lookup_fold)

lemma in_fold_keep:
  "(k, v) \<in> set l \<Longrightarrow> lower k \<notin> set (map (\<lambda>(k, v). lower k) r) \<Longrightarrow>
   (k, v) \<in> set (fold (\<lambda>(k, v) m. ci_set m k v) r l)"
proof (induction r arbitrary: l)
  case Nil
  then show ?case by simp
next
  case (Cons kv r)
  obtain k' v' where kv: "kv = (k', v')" by (cases kv)
  from Cons.prems kv have "\<not> same_key k k'" and rest: "lower k \<notin> set (map (\<lambda>(k, v). lower k) r)"
    by (auto simp: same_key_def)
  with Cons.prems(1) have "(k, v) \<in> set (ci_set l k' v')"
    by (simp add: in_ci_set_other)
  from Cons.IH [OF this rest] kv show ?case by simp
qed

lemma in_merge:
  "ci_distinct r \<Longrightarrow> (k, v) \<in> set r \<Longrightarrow> (k, v) \<in> set (ci_merge l r)"
proof (induction r arbitrary: l)
  case Nil
  then show ?case by simp
next
  case (Cons kv r)
  from Cons.prems(1) have dr: "ci_distinct r" by (simp add: ci_distinct_def)
  show ?case
  proof (cases "kv = (k, v)")
    case True
    from Cons.prems(1) True have "lower k \<notin> set (map (\<lambda>(k, v). lower k) r)"
      by (simp add: ci_distinct_def)
    from in_fold_keep [OF in_ci_set_same this] True show ?thesis
      by (simp add: ci_merge_def)
  next
    case False
    with Cons.prems(2) have "(k, v) \<in> set r" by simp
    from Cons.IH [OF dr this] show ?thesis
      by (cases kv) (simp add: ci_merge_def)
  qed
qed

lemma filter_lookup_none:
  "ci_lookup m q = None \<Longrightarrow> filter (\<lambda>(k, v). same_key k q) m = []"
  by (induction m) (auto split: if_splits)

lemma count_one:
  "ci_distinct m \<Longrightarrow> ci_lookup m q \<noteq> None \<Longrightarrow>
   length (filter (\<lambda>(k, v). same_key k q) m) = 1"
proof (induction m)
  case Nil
  then show ?case by simp
next
  case (Cons kv m)
  obtain k v where kv: "kv = (k, v)" by (cases kv)
  from Cons.prems(1) kv have dm: "ci_distinct m" and fresh: "lower k \<notin> set (map (\<lambda>(k, v). lower k) m)"
    by (simp_all add: ci_distinct_def)
  show ?case
  proof (cases "same_key k q")
    case True
    with fresh have "lower q \<notin> set (map (\<lambda>(k, v). lower k) m)" by (simp add: same_key_def)
    then have "ci_lookup m q = None" by (simp add: lookup_none_iff)
    then have "filter (\<lambda>(k, v). same_key k q) m = []" by (rule filter_lookup_none)
    with True kv show ?thesis by simp
  next
    case False
    with Cons.prems(2) kv have "ci_lookup m q \<noteq> None" by simp
    from Cons.IH [OF dm this] False kv show ?thesis by simp
  qed
qed

subsection \<open>HttpResponse.\_send\_headers\<close>

lemma default_headers_distinct: "ci_distinct (default_headers c w)"
  by (simp add: default_headers_def ci_distinct_def lower_def lower_char_def)

text \<open>
  C9. For every response whose handler-set headers form a header map, the entries
  \<open>_send_headers\<close> sends are the merge of the default headers (\<open>Date\<close>, \<open>Server\<close>)
  with the handler-set ones: every handler-set entry is sent; a handler-set name that
  collides, whatever its case, with \<open>Date\<close> or \<open>Server\<close> replaces the default, so each of
  the two appears exactly once, with the handler's value when there is one and the
  default value otherwise.
\<close>

theorem send_headers_merge:
  assumes "ci_distinct (headers resp)"
  shows "send_headers c w resp =
           map (\<lambda>(key, val). send_line (key @ '': '' @ val)) (merged_headers c w resp) @ [send_line []]
       \<and> set (headers resp) \<subseteq> set (merged_headers c w resp)
       \<and> ci_lookup (merged_headers c w resp) ''Date'' =
           Some (case ci_lookup (headers resp) ''Date'' of Some v \<Rightarrow> v | None \<Rightarrow> gmt_now w)
       \<and> ci_lookup (merged_headers c w resp) ''Server'' =
           Some (case ci_lookup (headers resp) ''Server'' of Some v \<Rightarrow> v | None \<Rightarrow> SERVER_NAME c)
       \<and> length (filter (\<lambda>(k, v). same_key k ''Date'') (merged_headers c w resp)) = 1
       \<and> length (filter (\<lambda>(k, v). same_key k ''Server'') (merged_headers c w resp)) = 1"
proof -
  let ?m = "merged_headers c w resp"
  have d: "ci_distinct ?m"
    by (simp add: merged_headers_def ci_distinct_merge default_headers_distinct)
  have sub: "set (headers resp) \<subseteq> set ?m"
    using assms by (auto simp: merged_headers_def in_merge)
  have date: "ci_lookup ?m ''Date'' =
      Some (case ci_lookup (headers resp) ''Date'' of Some v \<Rightarrow> v | None \<Rightarrow> gmt_now w)"
    using assms
    by (simp add: merged_headers_def lookup_merge default_headers_def same_key_def
          split: option.splits)
  have server: "ci_lookup ?m ''Server'' =
      Some (case ci_lookup (headers resp) ''Server'' of Some v \<Rightarrow> v | None \<Rightarrow> SERVER_NAME c)"
    using assms
    by (simp add: merged_headers_def lookup_merge default_headers_def same_key_def lower_def
          lower_char_def split: option.splits)
  have once_date: "length (filter (\<lambda>(k, v). same_key k ''Date'') ?m) = 1"
    using d date by (intro count_one) simp_all
  have once_server: "length (filter (\<lambda>(k, v). same_key k ''Server'') ?m) = 1"
    using d server by (intro count_one) simp_all
  from sub date server once_date once_server show ?thesis
    by (simp add: send_headers_def)
qed

text \<open>
  A handler that has set \<open>date\<close> in lower case and one header of its own.
\<close>

theorem send_headers_merge_witness:
  "ci_distinct (headers (ex_reply [] None\<lparr>headers := [(''date'', ''never''), (''X-A'', ''1'')]\<rparr>))
   \<and> merged_headers ex_constants ex_world
        (ex_reply [] None\<lparr>headers := [(''date'', ''never''), (''X-A'', ''1'')]\<rparr>) =
      [(''date'', ''never''), (''Server'', ''srv''), (''X-A'', ''1'')]
   \<and> ci_lookup (merged_headers ex_constants ex_world
        (ex_reply [] None\<lparr>headers := [(''date'', ''never''), (''X-A'', ''1'')]\<rparr>)) ''Date'' = Some ''never''
   \<and> ci_lookup (merged_headers ex_constants ex_world
        (ex_reply [] None\<lparr>headers := [(''date'', ''never''), (''X-A'', ''1'')]\<rparr>)) ''Server'' = Some ''srv''"
proof -
  let ?r = "ex_reply [] None\<lparr>headers := [(''date'', ''never''), (''X-A'', ''1'')]\<rparr>"
  have d: "ci_distinct (headers ?r)"
    by (simp add: ex_reply_def ci_distinct_def lower_def lower_char_def)
  have m: "merged_headers ex_constants ex_world ?r =
      [(''date'', ''never''), (''Server'', ''srv''), (''X-A'', ''1'')]"
    by (simp add: merged_headers_def ci_merge_def default_headers_def ex_reply_def ex_constants_def
          ex_world_def same_key_def lower_def lower_char_def)
  have l: "ci_lookup (headers ?r) ''Date'' = Some ''never''"
       "ci_lookup (headers ?r) ''Server'' = None"
    by (simp_all add: ex_reply_def same_key_def lower_def lower_char_def)
  have s: "SERVER_NAME ex_constants = ''srv''"
    by (simp add: ex_constants_def)
  from send_headers_merge [OF d, of ex_constants ex_world] d m l s show ?thesis
    by simp
qed

subsection \<open>HttpResponse.\_compress\_body and HttpResponse.send\<close>

lemma compress_step_bytes:
  "compress_step w ae enc (RBytes d, used) =
     (if str_in (name enc) ae \<and> length (compress enc d) \<le> length d
      then (RBytes (compress enc d), used @ [name enc])
      else (RBytes d, used))"
  by (simp add: compress_step_def Let_def)

lemma compress_step_sender:
  "\<exists>s' used'. compress_step w ae enc (Sender s, used) = (Sender s', used')"
  by (simp add: compress_step_def HttpResponse_compress_sender_def split: option.splits)

lemma fold_step_bytes:
  "\<exists>d' used'. fold (compress_step w ae) encs (RBytes d, used) = (RBytes d', used')"
proof (induction encs arbitrary: d used)
  case Nil
  show ?case by simp
next
  case (Cons enc encs)
  show ?case using Cons.IH by (simp add: compress_step_bytes)
qed

lemma fold_step_sender:
  "\<exists>s' used'. fold (compress_step w ae) encs (Sender s, used) = (Sender s', used')"
proof (induction encs arbitrary: s used)
  case Nil
  show ?case by simp
next
  case (Cons enc encs)
  obtain s1 u1 where "compress_step w ae enc (Sender s, used) = (Sender s1, u1)"
    using compress_step_sender [of w ae enc s used] by blast
  with Cons.IH [of s1 u1] show ?case by simp
qed

lemma compress_body_bytes:
  assumes "body resp = Some (RBytes d)"
  shows "\<exists>d'. body (HttpResponse_compress_body w resp) = Some (RBytes d')"
proof (cases "ci_lookup (recv_headers resp) ''Accept-Encoding''")
  case None
  with assms show ?thesis by (simp add: HttpResponse_compress_body_def ci_contains_def)
next
  case (Some ae)
  obtain d' used' where "fold (compress_step w ae) (supported_encodings w) (RBytes d, []) = (RBytes d', used')"
    using fold_step_bytes [of w ae "supported_encodings w" d "[]"] by blast
  with Some assms show ?thesis by (simp add: HttpResponse_compress_body_def)
qed

lemma compress_body_sender:
  assumes "body resp = Some (Sender s)"
  shows "\<exists>s'. body (HttpResponse_compress_body w resp) = Some (Sender s')"
proof (cases "ci_lookup (recv_headers resp) ''Accept-Encoding''")
  case None
  with assms show ?thesis by (simp add: HttpResponse_compress_body_def ci_contains_def)
next
  case (Some ae)
  obtain s' used' where "fold (compress_step w ae) (supported_encodings w) (Sender s, []) = (Sender s', used')"
    using fold_step_sender [of w ae "supported_encodings w" s "[]"] by blast
  with Some assms show ?thesis by (simp add: HttpResponse_compress_body_def)
qed

lemma compress_body_distinct:
  "ci_distinct (headers resp) \<Longrightarrow> ci_distinct (headers (HttpResponse_compress_body w resp))"
  by (auto simp: HttpResponse_compress_body_def ci_distinct_ci_set split: option.splits prod.splits)

lemma content_length_sent:
  assumes "ci_distinct (headers r)"
  shows "send_line (''Content-Length: '' @ v)
           \<in> set (send_headers c w (r\<lparr>headers := ci_set (headers r) ''Content-Length'' v\<rparr>))"
proof -
  let ?h = "ci_set (headers r) ''Content-Length'' v"
  have "ci_distinct ?h" using assms by (rule ci_distinct_ci_set)
  then have "(''Content-Length'', v) \<in> set (ci_merge (default_headers c w) ?h)"
    by (rule in_merge) (rule in_ci_set_same)
  then have "send_line (''Content-Length: '' @ v)
      \<in> (\<lambda>(key, val). send_line (key @ '': '' @ val)) ` set (ci_merge (default_headers c w) ?h)"
    by (intro image_eqI [where x = "(''Content-Length'', v)"]) simp_all
  moreover have "set (send_headers c w (r\<lparr>headers := ?h\<rparr>)) =
      insert (send_line [])
        ((\<lambda>(key, val). send_line (key @ '': '' @ val)) ` set (ci_merge (default_headers c w) ?h))"
    by (simp add: send_headers_def merged_headers_def)
  ultimately show ?thesis
    by blast
qed

text \<open>
  C3 (as amended). When \<open>send\<close> runs with an in-memory body, it returns normally,
  \<open>Content-Length\<close> is set to the exact byte length of the body left by
  \<open>_compress_body\<close>, and that header line is sent. When the body is a \<open>DataSender\<close>
  and \<open>send\<close> returns normally, \<open>Content-Length\<close> is not omitted: it is set to the
  length the sender reports and sent as well. Only with no body does \<open>send\<close> leave
  the headers as the handler set them.
\<close>

theorem send_content_length:
  assumes "ci_distinct (headers resp)"
  shows "(\<forall>d. body resp = Some (RBytes d) \<longrightarrow>
            (\<exists>r out d'. HttpResponse_send c w resp = Inr (r, out)
               \<and> body (HttpResponse_compress_body w resp) = Some (RBytes d')
               \<and> body r = Some (RBytes d')
               \<and> ci_lookup (headers r) ''Content-Length'' = Some (str_nat (length d'))
               \<and> send_line (''Content-Length: '' @ str_nat (length d')) \<in> set out))
       \<and> (\<forall>s r out. body resp = Some (Sender s) \<and> HttpResponse_send c w resp = Inr (r, out) \<longrightarrow>
            (\<exists>s' n. body r = Some (Sender s') \<and> sender_len w s' = Some n
               \<and> ci_lookup (headers r) ''Content-Length'' = Some (str_nat n)
               \<and> send_line (''Content-Length: '' @ str_nat n) \<in> set out))
       \<and> (body resp = None \<longrightarrow>
            HttpResponse_send c w resp =
              Inr (resp, send_status c resp @ send_headers c w resp @ [Close]))"
proof (intro conjI allI impI)
  fix d
  assume b: "body resp = Some (RBytes d)"
  let ?r1 = "HttpResponse_compress_body w resp"
  obtain d' where d': "body ?r1 = Some (RBytes d')"
    using compress_body_bytes [OF b, of w] by blast
  let ?r = "?r1\<lparr>headers := ci_set (headers ?r1) ''Content-Length'' (str_nat (length d'))\<rparr>"
  have dist: "ci_distinct (headers ?r1)" using assms by (rule compress_body_distinct)
  have run: "HttpResponse_send c w resp =
      Inr (?r, send_status c ?r @ send_headers c w ?r @ send_body ?r @ [Close])"
    using b d' by (simp add: HttpResponse_send_def set_content_length_def body_len_def Let_def)
  have line: "send_line (''Content-Length: '' @ str_nat (length d')) \<in> set (send_headers c w ?r)"
    using dist by (rule content_length_sent)
  show "\<exists>r out d'. HttpResponse_send c w resp = Inr (r, out)
      \<and> body (HttpResponse_compress_body w resp) = Some (RBytes d')
      \<and> body r = Some (RBytes d')
      \<and> ci_lookup (headers r) ''Content-Length'' = Some (str_nat (length d'))
      \<and> send_line (''Content-Length: '' @ str_nat (length d')) \<in> set out"
    using run d' line by (simp add: lookup_ci_set same_key_refl)
next
  fix s r out
  assume a: "body resp = Some (Sender s) \<and> HttpResponse_send c w resp = Inr (r, out)"
  let ?r1 = "HttpResponse_compress_body w resp"
  obtain s' where s': "body ?r1 = Some (Sender s')"
    using compress_body_sender [of resp s w] a by blast
  have dist: "ci_distinct (headers ?r1)" using assms by (rule compress_body_distinct)
  from a s' obtain n where n: "sender_len w s' = Some n"
    by (cases "sender_len w s'")
       (auto simp: HttpResponse_send_def set_content_length_def body_len_def Let_def)
  let ?r = "?r1\<lparr>headers := ci_set (headers ?r1) ''Content-Length'' (str_nat n)\<rparr>"
  have run: "HttpResponse_send c w resp =
      Inr (?r, send_status c ?r @ send_headers c w ?r @ send_body ?r @ [Close])"
    using a s' n by (simp add: HttpResponse_send_def set_content_length_def body_len_def Let_def)
  have line: "send_line (''Content-Length: '' @ str_nat n) \<in> set (send_headers c w ?r)"
    using dist by (rule content_length_sent)
  from a have "HttpResponse_send c w resp = Inr (r, out)" by (rule conjunct2)
  with run have eq: "(r, out) = (?r, send_status c ?r @ send_headers c w ?r @ send_body ?r @ [Close])"
    by (simp only: sum.inject)
  have r: "r = ?r"
    using arg_cong [OF eq, of fst] by (simp only: fst_conv)
  have out: "out = send_status c ?r @ send_headers c w ?r @ send_body ?r @ [Close]"
    using arg_cong [OF eq, of snd] by (simp only: snd_conv)
  show "\<exists>s' n. body r = Some (Sender s') \<and> sender_len w s' = Some n
      \<and> ci_lookup (headers r) ''Content-Length'' = Some (str_nat n)
      \<and> send_line (''Content-Length: '' @ str_nat n) \<in> set out"
    using s' n line unfolding r out by (simp add: lookup_ci_set same_key_refl)
next
  assume "body resp = None"
  then show "HttpResponse_send c w resp =
      Inr (resp, send_status c resp @ send_headers c w resp @ [Close])"
    by (simp add: HttpResponse_send_def set_content_length_def send_body_def)
qed

subsection \<open>Examples of the response side\<close>

lemmas response_eval =
  HttpResponse_send_def set_content_length_def HttpResponse_compress_body_def compress_step_def
  HttpResponse_compress_sender_def body_truthy_def body_len_def ci_contains_def
  send_status_def send_headers_def send_body_def merged_headers_def default_headers_def
  ci_merge_def same_key_def lower_def lower_char_def ex_world_def ex_reply_def ex_constants_def
  str_int_def str_nat.simps digit_char_def Let_def

text \<open>
  A five-byte body that the codec \<open>cut\<close> shortens to four.
\<close>

theorem send_content_length_witness:
  "ci_distinct (headers (ex_reply [(''Accept-Encoding'', ''cut'')] (Some (RBytes ''hello''))))
   \<and> body (ex_reply [(''Accept-Encoding'', ''cut'')] (Some (RBytes ''hello''))) = Some (RBytes ''hello'')
   \<and> body (HttpResponse_compress_body ex_world
         (ex_reply [(''Accept-Encoding'', ''cut'')] (Some (RBytes ''hello'')))) = Some (RBytes ''ello'')
   \<and> (\<exists>r out d'. HttpResponse_send ex_constants ex_world
           (ex_reply [(''Accept-Encoding'', ''cut'')] (Some (RBytes ''hello''))) = Inr (r, out)
         \<and> body (HttpResponse_compress_body ex_world
               (ex_reply [(''Accept-Encoding'', ''cut'')] (Some (RBytes ''hello'')))) = Some (RBytes d')
         \<and> body r = Some (RBytes d')
         \<and> ci_lookup (headers r) ''Content-Length'' = Some (str_nat (length d'))
         \<and> send_line (''Content-Length: '' @ str_nat (length d')) \<in> set out)"
proof -
  let ?R = "ex_reply [(''Accept-Encoding'', ''cut'')] (Some (RBytes ''hello''))"
  have d: "ci_distinct (headers ?R)"
    by (simp add: ex_reply_def ci_distinct_def)
  have b: "body ?R = Some (RBytes ''hello'')"
    by (simp add: ex_reply_def)
  have cb: "body (HttpResponse_compress_body ex_world ?R) = Some (RBytes ''ello'')"
    by (simp add: response_eval)
  from send_content_length [OF d, of ex_constants ex_world]
  have "\<forall>d. body ?R = Some (RBytes d) \<longrightarrow>
      (\<exists>r out d'. HttpResponse_send ex_constants ex_world ?R = Inr (r, out)
         \<and> body (HttpResponse_compress_body ex_world ?R) = Some (RBytes d')
         \<and> body r = Some (RBytes d')
         \<and> ci_lookup (headers r) ''Content-Length'' = Some (str_nat (length d'))
         \<and> send_line (''Content-Length: '' @ str_nat (length d')) \<in> set out)"
    by (rule conjunct1)
  then have "\<exists>r out d'. HttpResponse_send ex_constants ex_world ?R = Inr (r, out)
         \<and> body (HttpResponse_compress_body ex_world ?R) = Some (RBytes d')
         \<and> body r = Some (RBytes d')
         \<and> ci_lookup (headers r) ''Content-Length'' = Some (str_nat (length d'))
         \<and> send_line (''Content-Length: '' @ str_nat (length d')) \<in> set out"
    using b by blast
  with d b cb show ?thesis by (intro conjI)
qed

text \<open>
  C3 as stated fails for a streaming body: with a \<open>DataSender\<close> of length 10 the
  response that goes out carries \<open>Content-Length: 10\<close>.
\<close>

theorem send_sender_content_length_counterexample:
  "HttpResponse_send ex_constants ex_world (ex_reply [] (Some (Sender 10))) =
     Inr (\<lparr>code = 200, msg = ''OK'', headers = [(''Content-Length'', ''10'')],
           body = Some (Sender 10), recv_headers = []\<rparr>,
          [send_line ''HTTP/1.1 200 OK'',
           send_line ''Date: Tue, 03 Nov 2026 20:15:00 GMT'',
           send_line ''Server: srv'',
           send_line ''Content-Length: 10'',
           send_line [],
           SendTo 10,
           Close])"
  by (simp add: response_eval)

text \<open>
  C2 does not hold of the code. For every in-memory body and every codec the client
  accepts whose output is exactly as long as the body, the test
  \<open>len(tested_encoding) > len(self.body)\<close> does not skip the codec: the round of the
  loop replaces the body and records the codec although nothing got smaller.
\<close>

theorem compress_step_equal_size:
  assumes "str_in (name enc) accept_encoding"
    and "length (compress enc d) = length d"
  shows "compress_step w accept_encoding enc (RBytes d, used_encodings) =
           (RBytes (compress enc d), used_encodings @ [name enc])"
  using assms by (simp add: compress_step_bytes)

text \<open>
  The codec \<open>flip\<close> on the body \<open>ab\<close>: the round, and the response \<open>_compress_body\<close>
  leaves.
\<close>

theorem compress_step_equal_size_witness:
  "str_in (name \<lparr>name = ''flip'', compress = rev, chunked_compression = None :: unit option\<rparr>) ''flip''
   \<and> length (compress \<lparr>name = ''flip'', compress = rev, chunked_compression = None :: unit option\<rparr> ''ab'')
       = length ''ab''
   \<and> compress_step ex_world ''flip''
        \<lparr>name = ''flip'', compress = rev, chunked_compression = None\<rparr> (RBytes ''ab'', []) =
      (RBytes ''ba'', [''flip''])
   \<and> HttpResponse_compress_body ex_world
        (ex_reply [(''Accept-Encoding'', ''flip'')] (Some (RBytes ''ab''))) =
      \<lparr>code = 200, msg = ''OK'', headers = [(''Content-Encoding'', ''flip'')],
        body = Some (RBytes ''ba''), recv_headers = [(''Accept-Encoding'', ''flip'')]\<rparr>"
proof -
  let ?flip = "\<lparr>name = ''flip'', compress = rev, chunked_compression = None :: unit option\<rparr>"
  have a: "str_in (name ?flip) ''flip''"
    by simp
  have l: "length (compress ?flip ''ab'') = length ''ab''"
    by simp
  have whole: "HttpResponse_compress_body ex_world
        (ex_reply [(''Accept-Encoding'', ''flip'')] (Some (RBytes ''ab''))) =
      \<lparr>code = 200, msg = ''OK'', headers = [(''Content-Encoding'', ''flip'')],
        body = Some (RBytes ''ba''), recv_headers = [(''Accept-Encoding'', ''flip'')]\<rparr>"
    by (simp add: response_eval)
  from compress_step_equal_size [OF a l, of ex_world "[]"] a l whole show ?thesis
    by simp
qed

end
